theory Spec2Isabelle
  imports Main "HOL-Library.Sublist" "HOL-Library.Multiset"
begin

section \<open>The Wisconsin sports feed: a shallow embedding of \<^verbatim>\<open>wisco_core_teams_rss.py\<close>\<close>

text \<open>
  The program is a linear pipeline: fetch scoreboards over a window of dates, keep the
  events of four teams, turn each into a feed item, merge the teams' news feeds, sort by
  publish time, cap the list and write RSS. Every function below is the translation of
  the Python function of the same name.

  Conventions of the model.
  \<^item> A Python \<^verbatim>\<open>str\<close> is a \<^typ>\<open>string\<close>: the UTF-8 bytes of the text. The three
    characters of the source outside ASCII (the bullet, the en dash and the em dash) are
    their three-byte encodings.
  \<^item> A \<^verbatim>\<open>datetime.date\<close> is its day number \<^verbatim>\<open>toordinal()\<close>, from 1 for
    \<^verbatim>\<open>date.min\<close> to 3652059 for \<^verbatim>\<open>date.max\<close>; arithmetic that leaves this range
    raises \<^verbatim>\<open>OverflowError\<close>, as in Python.
  \<^item> An exception is a value: a function that can raise returns a sum, a generator the
    dates it yields and the exception that ended it, if any.
  \<^item> A \<^verbatim>\<open>dict.get\<close> that can miss is an \<^typ>\<open>'a option\<close>.
\<close>

subsection \<open>The window of dates\<close>

text \<open>
  \<^verbatim>\<open>range(a, b)\<close> over Python's integers: \<open>a, a + 1, ..., b - 1\<close>, empty when \<open>b \<le> a\<close>.
\<close>

definition py_range :: "int \<Rightarrow> int \<Rightarrow> int list" where
  "py_range a b = [a .. b - 1]"

text \<open>
  The dates of \<^verbatim>\<open>datetime\<close>. A \<^verbatim>\<open>date\<close> is a day of the years 1 to 9999, counted
  by \<^verbatim>\<open>toordinal()\<close> from 1 (\<^verbatim>\<open>date.min\<close>) to 3652059 (\<^verbatim>\<open>date.max\<close>).
\<close>

datatype py_error = OverflowError

definition MINORDINAL :: int where
  "MINORDINAL = 1"

definition MAXORDINAL :: int where
  "MAXORDINAL = 3652059"

typedef date = "{MINORDINAL .. MAXORDINAL}"
  morphisms toordinal Abs_date
  by (rule exI [of _ 1]) (simp add: MINORDINAL_def MAXORDINAL_def)

definition date_min :: date where
  "date_min = Abs_date MINORDINAL"

text \<open>
  \<^verbatim>\<open>timedelta(days=k)\<close> raises \<^verbatim>\<open>OverflowError\<close> when \<open>k\<close> is beyond 999999999 days
  in either direction. \<^verbatim>\<open>d + timedelta(days=k)\<close> is the date \<open>k\<close> days after \<open>d\<close>, and
  raises \<^verbatim>\<open>OverflowError\<close> when that day is outside the calendar:
  \<^verbatim>\<open>
  o = self.toordinal() + other.days
  if 0 < o <= _MAXORDINAL:
      return type(self).fromordinal(o)
  raise OverflowError("result out of range")
  \<close>
\<close>

definition timedelta_days :: "int \<Rightarrow> py_error + int" where
  "timedelta_days k = (if \<bar>k\<bar> \<le> 999999999 then Inr k else Inl OverflowError)"

definition date_add :: "date \<Rightarrow> int \<Rightarrow> py_error + date" where
  "date_add d k =
     (let n = toordinal d + k
      in if MINORDINAL \<le> n \<and> n \<le> MAXORDINAL then Inr (Abs_date n) else Inl OverflowError)"

text \<open>
  \<^verbatim>\<open>
  def date_range(center: dt.date, days: int):
      span = max(days, 0)
      for offset in range(-span // 2, span // 2 + 1):
          yield center + dt.timedelta(days=offset)
  \<close>
  Python reads \<^verbatim>\<open>-span // 2\<close> as \<^verbatim>\<open>(-span) // 2\<close>, and \<^verbatim>\<open>//\<close> rounds towards minus
  infinity, as \<open>div\<close> on \<^typ>\<open>int\<close> does. \<open>shift_date\<close> is the expression of the
  \<^verbatim>\<open>yield\<close>, and \<open>yield_dates\<close> is the loop: the dates yielded, in order, and the
  exception that ended the generator, \<open>None\<close> when it ran to its end.
\<close>

definition shift_date :: "date \<Rightarrow> int \<Rightarrow> py_error + date" where
  "shift_date center offset =
     (case timedelta_days offset of Inl e \<Rightarrow> Inl e | Inr k \<Rightarrow> date_add center k)"

fun yield_dates :: "date \<Rightarrow> int list \<Rightarrow> date list \<times> py_error option" where
  "yield_dates center [] = ([], None)"
| "yield_dates center (offset # rest) =
     (case shift_date center offset of
        Inl e \<Rightarrow> ([], Some e)
      | Inr d \<Rightarrow> (let (ds, e) = yield_dates center rest in (d # ds, e)))"

definition date_range :: "date \<Rightarrow> int \<Rightarrow> date list \<times> py_error option" where
  "date_range center days =
     (let span = max days 0
      in yield_dates center (py_range ((- span) div 2) (span div 2 + 1)))"

text \<open>
  The dates of a window strictly before, and strictly after, the reference date; and
  the offsets for which the reference date plus the offset is a day of the calendar.
\<close>

definition dates_before :: "date \<Rightarrow> date list \<Rightarrow> date list" where
  "dates_before center ds = filter (\<lambda>d. toordinal d < toordinal center) ds"

definition dates_after :: "date \<Rightarrow> date list \<Rightarrow> date list" where
  "dates_after center ds = filter (\<lambda>d. toordinal center < toordinal d) ds"

definition in_calendar :: "date \<Rightarrow> int \<Rightarrow> bool" where
  "in_calendar center offset =
     (MINORDINAL \<le> toordinal center + offset \<and> toordinal center + offset \<le> MAXORDINAL)"

subsection \<open>Strings\<close>

text \<open>The characters of the source outside ASCII, as UTF-8 bytes.\<close>

definition bullet :: string where
  "bullet = [CHR 0xE2, CHR 0x80, CHR 0xA2]"

definition en_dash :: string where
  "en_dash = [CHR 0xE2, CHR 0x80, CHR 0x93]"


text \<open>
  \<^verbatim>\<open>str.lower()\<close>: the letters \<open>A\<close> to \<open>Z\<close> (65 to 90) move to \<open>a\<close> to \<open>z\<close>. Every
  other byte stays, which is what Python does on ASCII text and on the dashes and the
  bullet above; cased letters outside ASCII are not part of the model.
\<close>

definition lower_char :: "char \<Rightarrow> char" where
  "lower_char c =
     (let n = (of_char c :: nat) in if 65 \<le> n \<and> n \<le> 90 then char_of (n + 32) else c)"

definition py_lower :: "string \<Rightarrow> string" where
  "py_lower s = map lower_char s"

text \<open>
  \<^verbatim>\<open>k in n\<close> on two strings: \<open>k\<close> occurs in \<open>n\<close> as a run of consecutive characters.
  The search tries every start position from the left.
\<close>

fun py_in :: "string \<Rightarrow> string \<Rightarrow> bool" where
  "py_in k [] = (k = [])"
| "py_in k (c # cs) = (prefix k (c # cs) \<or> py_in k cs)"

text \<open>
  \<^verbatim>\<open>s.replace(c, r)\<close> for a pattern \<open>c\<close> of one character: every occurrence becomes
  \<open>r\<close>.
\<close>

definition py_replace1 :: "char \<Rightarrow> string \<Rightarrow> string \<Rightarrow> string" where
  "py_replace1 c r s = concat (map (\<lambda>x. if x = c then r else [x]) s)"

text \<open>
  \<^verbatim>\<open>html.escape(s)\<close>, with its default \<^verbatim>\<open>quote=True\<close>, as the library writes it:
  \<^verbatim>\<open>
  s = s.replace("&", "&amp;")   # Must be done first!
  s = s.replace("<", "&lt;")
  s = s.replace(">", "&gt;")
  s = s.replace('"', "&quot;")
  s = s.replace('\'', "&#x27;")
  \<close>
\<close>

definition escape :: "string \<Rightarrow> string" where
  "escape s =
     py_replace1 (CHR 0x27) ''&#x27;''
       (py_replace1 (CHR 0x22) ''&quot;''
         (py_replace1 (CHR ''>'') ''&gt;''
           (py_replace1 (CHR ''<'') ''&lt;''
             (py_replace1 (CHR ''&'') ''&amp;'' s))))"

text \<open>What \<^verbatim>\<open>html.escape\<close> makes of one character.\<close>

definition escape_char :: "char \<Rightarrow> string" where
  "escape_char c =
     (if c = CHR ''&'' then ''&amp;'' else if c = CHR ''<'' then ''&lt;''
      else if c = CHR ''>'' then ''&gt;'' else if c = CHR 0x22 then ''&quot;''
      else if c = CHR 0x27 then ''&#x27;'' else [c])"

text \<open>
  \<^verbatim>\<open>s.strip()\<close>: the whitespace of ASCII (tab, line feed, vertical tab, form feed,
  carriage return, the four separators 28 to 31 and the space) is removed at both ends.
\<close>

definition is_space :: "char \<Rightarrow> bool" where
  "is_space c = (let n = (of_char c :: nat) in (9 \<le> n \<and> n \<le> 13) \<or> (28 \<le> n \<and> n \<le> 32))"

definition py_strip :: "string \<Rightarrow> string" where
  "py_strip s = rev (dropWhile is_space (rev (dropWhile is_space s)))"

text \<open>\<^verbatim>\<open>sep.join(xs)\<close>.\<close>

fun py_join :: "string \<Rightarrow> string list \<Rightarrow> string" where
  "py_join sep [] = []"
| "py_join sep [x] = x"
| "py_join sep (x # y # ys) = x @ sep @ py_join sep (y # ys)"

text \<open>\<^verbatim>\<open>str(n)\<close> of an integer: its decimal digits, with a minus sign when negative.\<close>

fun nat_digits :: "nat \<Rightarrow> string" where
  "nat_digits n =
     (if n < 10 then [char_of (48 + n)]
      else nat_digits (n div 10) @ [char_of (48 + n mod 10)])"

definition py_str_int :: "int \<Rightarrow> string" where
  "py_str_int i = (if i < 0 then CHR ''-'' # nat_digits (nat (- i)) else nat_digits (nat i))"

text \<open>
  \<^verbatim>\<open>v or d\<close> where \<open>v\<close> is the result of a \<^verbatim>\<open>dict.get\<close> holding a string: a missing
  key (\<^verbatim>\<open>None\<close>) and the empty string are both falsy and give \<open>d\<close>.
\<close>

definition or_str :: "string option \<Rightarrow> string \<Rightarrow> string" where
  "or_str v d = (case v of None \<Rightarrow> d | Some s \<Rightarrow> if s = [] then d else s)"

text \<open>\<^verbatim>\<open>v or []\<close> for a \<^verbatim>\<open>dict.get\<close> holding a list.\<close>

definition or_list :: "'a list option \<Rightarrow> 'a list" where
  "or_list v = (case v of None \<Rightarrow> [] | Some xs \<Rightarrow> xs)"

subsection \<open>Configuration\<close>

text \<open>
  \<^verbatim>\<open>
  TEAM_MATCHERS = [
      "Green Bay Packers", "Packers", "GB",
      "Milwaukee Bucks", "Bucks", "MIL",
      "Milwaukee Brewers", "Brewers",
      "Wisconsin Badgers", "Wisconsin", "UW", "UW-Madison" (en dash), "UW-Madison",
  ]
  \<close>
\<close>

definition TEAM_MATCHERS :: "string list" where
  "TEAM_MATCHERS =
     [''Green Bay Packers'', ''Packers'', ''GB'',
      ''Milwaukee Bucks'', ''Bucks'', ''MIL'',
      ''Milwaukee Brewers'', ''Brewers'',
      ''Wisconsin Badgers'', ''Wisconsin'', ''UW'', ''UW'' @ en_dash @ ''Madison'',
      ''UW-Madison'']"

definition TEAM_NEWS_FEEDS :: "(string \<times> string) list" where
  "TEAM_NEWS_FEEDS =
     [(''Packers News'', ''https://www.packers.com/news/rss''),
      (''Bucks News'', ''https://www.nba.com/bucks/rss.xml''),
      (''Brewers News'', ''https://www.mlb.com/brewers/feeds/news/rss.xml''),
      (''UW News '' @ bullet @ '' Football'', ''https://uwbadgers.com/rss?path=football''),
      (''UW News '' @ bullet @ '' Men'' @ [CHR 0x27] @ ''s Basketball'',
         ''https://uwbadgers.com/rss?path=mbball''),
      (''UW News '' @ bullet @ '' Women'' @ [CHR 0x27] @ ''s Basketball'',
         ''https://uwbadgers.com/rss?path=wbball''),
      (''UW News '' @ bullet @ '' Volleyball'', ''https://uwbadgers.com/rss?path=wvball'')]"

subsection \<open>The team filter\<close>

text \<open>
  \<^verbatim>\<open>
  def matches_team(name: str) -> bool:
      n = (name or "").lower()
      return any(key.lower() in n for key in TEAM_MATCHERS)
  \<close>
  On a string, \<^verbatim>\<open>name or ""\<close> is \<open>name\<close>.
\<close>

definition matches_team :: "string \<Rightarrow> bool" where
  "matches_team name =
     (let n = py_lower (or_str (Some name) [])
      in list_ex (\<lambda>key. py_in (py_lower key) n) TEAM_MATCHERS)"

subsection \<open>Scoreboard events\<close>

text \<open>
  The part of a scoreboard document that the program reads, with the keys of the JSON
  objects as fields. A key that may be absent is an option; the empty object \<^verbatim>\<open>{}\<close> is
  the record with every field absent.
\<close>

record team =
  displayName :: "string option"
  shortDisplayName :: "string option"
  team_name :: "string option"
  team_abbreviation :: "string option"

record competitor =
  homeAway :: "string option"
  comp_team :: "team option"
  score :: "string option"

record status_type =
  state :: "string option"
  shortDetail :: "string option"
  detail :: "string option"

record comp_status =
  status_ty :: "status_type option"

record competition =
  competitors :: "competitor list option"
  status :: "comp_status option"

record event_link =
  rel :: "string list option"
  href :: "string option"

record event =
  competitions :: "competition list option"
  links :: "event_link list option"
  shortLink :: "string option"
  web :: "string option"
  event_id :: "string option"
  event_date :: "string option"





subsection \<open>The canonical link\<close>

text \<open>
  \<^verbatim>\<open>
  def pick_game_link(event: dict) -> str:
      links = event.get("links") or []
      for rel in ("boxscore", "summary", "pbp", "recap"):
          for l in links:
              if rel in (l.get("rel") or []):
                  return l.get("href") or ""
      for l in links:
          if l.get("href"):
              return l["href"]
      return event.get("shortLink") or event.get("web") or "https://www.espn.com/"
  \<close>
  \<open>has_rel r l\<close> is the test of the inner loop; \<open>rel_loop\<close> is the pair of nested loops,
  \<open>None\<close> when they end without returning.
\<close>

definition has_rel :: "string \<Rightarrow> event_link \<Rightarrow> bool" where
  "has_rel r l = (r \<in> set (or_list (rel l)))"

fun rel_loop :: "string list \<Rightarrow> event_link list \<Rightarrow> string option" where
  "rel_loop [] ls = None"
| "rel_loop (r # rs) ls =
     (case find (has_rel r) ls of
        Some l \<Rightarrow> Some (or_str (href l) [])
      | None \<Rightarrow> rel_loop rs ls)"

definition has_href :: "event_link \<Rightarrow> bool" where
  "has_href l = (or_str (href l) [] \<noteq> [])"

definition pick_game_link :: "event \<Rightarrow> string" where
  "pick_game_link ev =
     (let ls = or_list (links ev)
      in case rel_loop [''boxscore'', ''summary'', ''pbp'', ''recap''] ls of
           Some h \<Rightarrow> h
         | None \<Rightarrow>
             (case find has_href ls of
                Some l \<Rightarrow> or_str (href l) []
              | None \<Rightarrow> or_str (shortLink ev) (or_str (web ev) ''https://www.espn.com/'')))"

subsection \<open>Feed items and the library\<close>

datatype item_kind = Score | News

record FeedItem =
  title :: string
  link :: string
  description :: string
  pubDate :: string
  guid :: string
  kind :: item_kind

text \<open>
  What the program takes from outside: the network and the functions of Python's
  library on dates, XML and hashing. A \<^verbatim>\<open>datetime\<close> is its instant, in microseconds of
  UTC; \<open>None\<close> is a call that raises.
  \<^item> \<open>fetch_text url\<close>: the body of the GET request (\<^verbatim>\<open>fetch_text\<close> of the source).
  \<^item> \<open>ET_fromstring\<close>: \<^verbatim>\<open>xml.etree.ElementTree.fromstring\<close>.
  \<^item> \<open>fromisoformat s\<close>: the instant of
    \<^verbatim>\<open>datetime.fromisoformat(s).astimezone(timezone.utc)\<close>.
  \<^item> \<open>parsedate_to_datetime s\<close>: the instant of \<^verbatim>\<open>email.utils.parsedate_to_datetime(s)\<close>,
    a result without time zone read as UTC.
  \<^item> \<open>format_datetime\<close>: \<^verbatim>\<open>email.utils.format_datetime\<close> of an instant in UTC. The
    conversion \<^verbatim>\<open>astimezone(timezone.utc)\<close> before it is taken to succeed: a date
    within a day of the years 1 or 9999, for which Python raises there, is outside the
    model.
  \<^item> \<open>hash_str\<close>: the built-in \<^verbatim>\<open>hash\<close> on strings.
\<close>

datatype xml = Element (el_tag: string) (el_text: string) (el_children: "xml list")

record pylib =
  fetch_text :: "string \<Rightarrow> string option"
  ET_fromstring :: "string \<Rightarrow> xml option"
  fromisoformat :: "string \<Rightarrow> int option"
  parsedate_to_datetime :: "string \<Rightarrow> int option"
  format_datetime :: "int \<Rightarrow> string"
  hash_str :: "string \<Rightarrow> int"

subsection \<open>The event normalizer\<close>












subsection \<open>The news ingester\<close>

text \<open>
  \<^verbatim>\<open>root.findall(".//item")\<close>: the elements below the root with tag \<open>item\<close>, in
  document order. \<^verbatim>\<open>item.findtext(t)\<close>: the text of the first child with tag \<open>t\<close>
  (the empty string when it has none), \<open>None\<close> when there is no such child.
\<close>

fun descendants :: "xml \<Rightarrow> xml list" where
  "descendants (Element t x cs) = concat (map (\<lambda>c. c # descendants c) cs)"

definition findall :: "xml \<Rightarrow> string \<Rightarrow> xml list" where
  "findall root t = filter (\<lambda>e. el_tag e = t) (descendants root)"

definition findtext :: "xml \<Rightarrow> string \<Rightarrow> string option" where
  "findtext e t = map_option el_text (find (\<lambda>c. el_tag c = t) (el_children e))"

text \<open>
  One round of the loop of \<^verbatim>\<open>parse_team_rss\<close>:
  \<^verbatim>\<open>
          title = (item.findtext("title") or "").strip()
          link = (item.findtext("link") or "").strip()
          desc = (item.findtext("description") or "").strip()
          pub = item.findtext("pubDate") or ""
          try:
              dt_pub = parsedate_to_datetime(pub) if pub else dt.datetime.now(dt.timezone.utc)
              if not dt_pub.tzinfo:
                  dt_pub = dt_pub.replace(tzinfo=dt.timezone.utc)
          except Exception:
              dt_pub = dt.datetime.now(dt.timezone.utc)
          items.append({
              "title": f"{feed_title}: {title}",
              "link": link or "",
              "description": desc,
              "pubDate": format_datetime(dt_pub.astimezone(dt.timezone.utc)),
              "guid": f"news-{hash(feed_title + title + link + pub)}",
              "kind": "news",
          })
  \<close>
\<close>

definition news_item :: "'a pylib_scheme \<Rightarrow> int \<Rightarrow> string \<Rightarrow> xml \<Rightarrow> FeedItem" where
  "news_item L now feed_title item =
     (let ttl = py_strip (or_str (findtext item ''title'') []);
          lnk = py_strip (or_str (findtext item ''link'') []);
          desc = py_strip (or_str (findtext item ''description'') []);
          pub = or_str (findtext item ''pubDate'') [];
          dt_pub = (if pub \<noteq> []
                    then (case parsedate_to_datetime L pub of Some t \<Rightarrow> t | None \<Rightarrow> now)
                    else now)
      in \<lparr>title = feed_title @ '': '' @ ttl,
          link = or_str (Some lnk) [],
          description = desc,
          pubDate = format_datetime L dt_pub,
          guid = ''news-'' @ py_str_int (hash_str L (feed_title @ ttl @ lnk @ pub)),
          kind = News\<rparr>)"

text \<open>
  The loop over the \<open>item\<close> elements, with its \<^verbatim>\<open>break\<close>:
  \<^verbatim>\<open>
      items = []
      for item in root.findall(".//item"):
          ...
          if len(items) >= max_items:
              break
      return items
  \<close>
  \<open>now k\<close> is the clock in round \<open>k\<close> of the loop.
\<close>

fun news_loop ::
  "'a pylib_scheme \<Rightarrow> (nat \<Rightarrow> int) \<Rightarrow> string \<Rightarrow> int \<Rightarrow> nat \<Rightarrow> xml list \<Rightarrow> FeedItem list
     \<Rightarrow> FeedItem list" where
  "news_loop L now feed_title max_items k [] items = items"
| "news_loop L now feed_title max_items k (item # rest) items =
     (let items' = items @ [news_item L (now k) feed_title item]
      in if int (length items') \<ge> max_items then items'
         else news_loop L now feed_title max_items (Suc k) rest items')"

text \<open>
  \<^verbatim>\<open>
  def parse_team_rss(feed_title: str, url: str, max_items: int = 25) -> list[dict]:
      try:
          xml = fetch_text(url, timeout=20)
          root = ET.fromstring(xml)
      except Exception:
          return []
  \<close>
\<close>

definition parse_team_rss ::
  "'a pylib_scheme \<Rightarrow> (nat \<Rightarrow> int) \<Rightarrow> string \<Rightarrow> string \<Rightarrow> int \<Rightarrow> FeedItem list" where
  "parse_team_rss L now feed_title url max_items =
     (case fetch_text L url of
        None \<Rightarrow> []
      | Some doc \<Rightarrow>
          (case ET_fromstring L doc of
             None \<Rightarrow> []
           | Some root \<Rightarrow> news_loop L now feed_title max_items 0 (findall root ''item'') []))"

text \<open>
  The loop of \<^verbatim>\<open>main\<close> over the news feeds; \<open>clock i\<close> is the clock of the call for
  feed number \<open>i\<close>.
  \<^verbatim>\<open>
      for feed_title, url in TEAM_NEWS_FEEDS:
          try:
              items.extend(parse_team_rss(feed_title, url, max_items=20))
          except Exception as e:
              print(f"[WARN] News feed failed {url}: {e}", file=sys.stderr)
  \<close>
\<close>

fun news_feeds ::
  "'a pylib_scheme \<Rightarrow> (nat \<Rightarrow> nat \<Rightarrow> int) \<Rightarrow> nat \<Rightarrow> (string \<times> string) list \<Rightarrow> FeedItem list
     \<Rightarrow> FeedItem list" where
  "news_feeds L clock i [] items = items"
| "news_feeds L clock i ((feed_title, url) # feeds) items =
     news_feeds L clock (Suc i) feeds (items @ parse_team_rss L (clock i) feed_title url 20)"

subsection \<open>The merger and sorter\<close>

text \<open>
  \<^verbatim>\<open>
      def parse_rfc2822(s):
          try:
              return parsedate_to_datetime(s)
          except Exception:
              return dt.datetime.now(dt.timezone.utc)
  \<close>
\<close>

definition parse_rfc2822 :: "'a pylib_scheme \<Rightarrow> int \<Rightarrow> string \<Rightarrow> int" where
  "parse_rfc2822 L now s = (case parsedate_to_datetime L s of Some t \<Rightarrow> t | None \<Rightarrow> now)"

text \<open>
  \<^verbatim>\<open>xs.sort(key=f, reverse=True)\<close>, as CPython runs it: the keys of all elements are
  computed first, in list order; the list is reversed, sorted by a stable ascending sort
  on the keys, and reversed again. \<open>ks\<close> are the keys, one for each element of \<open>xs\<close>;
  the result lists every element with its key.
\<close>

definition py_sort_reverse :: "'k::linorder list \<Rightarrow> 'a list \<Rightarrow> ('k \<times> 'a) list" where
  "py_sort_reverse ks xs = rev (sort_key fst (rev (zip ks xs)))"

text \<open>
  \<^verbatim>\<open>
      items.sort(key=lambda x: parse_rfc2822(x["pubDate"]), reverse=True)
  \<close>
  \<open>clock i\<close> is the clock while the key of element number \<open>i\<close> is computed.
\<close>

definition sort_keys :: "'a pylib_scheme \<Rightarrow> (nat \<Rightarrow> int) \<Rightarrow> FeedItem list \<Rightarrow> int list" where
  "sort_keys L clock items =
     map (\<lambda>(i, x). parse_rfc2822 L (clock i) (pubDate x)) (enumerate 0 items)"

definition timed_items ::
  "'a pylib_scheme \<Rightarrow> (nat \<Rightarrow> int) \<Rightarrow> FeedItem list \<Rightarrow> (int \<times> FeedItem) list" where
  "timed_items L clock items = zip (sort_keys L clock items) items"

definition sort_timed ::
  "'a pylib_scheme \<Rightarrow> (nat \<Rightarrow> int) \<Rightarrow> FeedItem list \<Rightarrow> (int \<times> FeedItem) list" where
  "sort_timed L clock items = py_sort_reverse (sort_keys L clock items) items"

definition sort_items :: "'a pylib_scheme \<Rightarrow> (nat \<Rightarrow> int) \<Rightarrow> FeedItem list \<Rightarrow> FeedItem list" where
  "sort_items L clock items = map snd (sort_timed L clock items)"

text \<open>
  \<^verbatim>\<open>
      if args.max_items > 0:
          items = items[: args.max_items]
  \<close>
\<close>

definition cap_items :: "int \<Rightarrow> 'a list \<Rightarrow> 'a list" where
  "cap_items max_items items = (if max_items > 0 then take (nat max_items) items else items)"

text \<open>
  The two steps of \<^verbatim>\<open>main\<close> on the list that holds the score items followed by the
  news items.
\<close>

definition sort_and_cap ::
  "'a pylib_scheme \<Rightarrow> (nat \<Rightarrow> int) \<Rightarrow> int \<Rightarrow> FeedItem list \<Rightarrow> FeedItem list" where
  "sort_and_cap L clock max_items items = cap_items max_items (sort_items L clock items)"

subsection \<open>The RSS serializer\<close>

text \<open>
  The lines of one item:
  \<^verbatim>\<open>
          buf.append("<item>")
          buf.append(f"<title>{escape(it['title'])}</title>")
          buf.append(f"<link>{escape(it['link'])}</link>")
          buf.append(f"<guid isPermaLink='false'>{escape(it['guid'])}</guid>")
          buf.append(f"<pubDate>{it['pubDate']}</pubDate>")
          buf.append(f"<description><![CDATA[{it['description']}]]></description>")
          buf.append("</item>")
  \<close>
\<close>

definition guid_open :: string where
  "guid_open = ''<guid isPermaLink='' @ [CHR 0x27] @ ''false'' @ [CHR 0x27] @ ''>''"

definition item_lines :: "FeedItem \<Rightarrow> string list" where
  "item_lines it =
     [''<item>'',
      ''<title>'' @ escape (title it) @ ''</title>'',
      ''<link>'' @ escape (link it) @ ''</link>'',
      guid_open @ escape (guid it) @ ''</guid>'',
      ''<pubDate>'' @ pubDate it @ ''</pubDate>'',
      ''<description><![CDATA['' @ description it @ '']]></description>'',
      ''</item>'']"

text \<open>
  \<^verbatim>\<open>build_rss\<close>; \<open>now\<close> is the clock at the call.
\<close>

definition xml_declaration :: string where
  "xml_declaration =
     ''<?xml version='' @ [CHR 0x22] @ ''1.0'' @ [CHR 0x22] @ '' encoding='' @ [CHR 0x22]
       @ ''UTF-8'' @ [CHR 0x22] @ ''?>''"

definition rss_open :: string where
  "rss_open = ''<rss version='' @ [CHR 0x22] @ ''2.0'' @ [CHR 0x22] @ ''>''"

definition rss_lines ::
  "'a pylib_scheme \<Rightarrow> int \<Rightarrow> FeedItem list \<Rightarrow> string \<Rightarrow> string \<Rightarrow> string \<Rightarrow> string list" where
  "rss_lines L now items ttl lnk descr =
     [xml_declaration,
      rss_open,
      ''<channel>'',
      ''<title>'' @ escape ttl @ ''</title>'',
      ''<link>'' @ escape lnk @ ''</link>'',
      ''<description>'' @ escape descr @ ''</description>'',
      ''<lastBuildDate>'' @ format_datetime L now @ ''</lastBuildDate>'']
     @ concat (map item_lines items)
     @ [''</channel>'', ''</rss>'']"

definition build_rss ::
  "'a pylib_scheme \<Rightarrow> int \<Rightarrow> FeedItem list \<Rightarrow> string \<Rightarrow> string \<Rightarrow> string \<Rightarrow> string" where
  "build_rss L now items ttl lnk descr =
     py_join [CHR 0x0A] (rss_lines L now items ttl lnk descr)"

subsection \<open>Reading a field back\<close>

text \<open>
  The reader against which the serializer is measured: what a conforming XML 1.0
  processor returns as the text of an element that holds character data, references and
  CDATA sections. In character data, \<open>&\<close> starts a reference (the five predefined
  entities, and the character reference of the apostrophe in the two forms \<open>&#x27;\<close> and
  \<open>&#39;\<close>; any other reference is outside this reader), \<open><\<close> starts a CDATA section
  and nothing else, and the sequence \<open>]]>\<close> is an error. A CDATA section runs, unchanged,
  to the first \<open>]]>\<close>. The flag says whether the reader is inside a CDATA section; \<open>None\<close>
  is a document that is not well-formed.
\<close>

fun xml_text :: "bool \<Rightarrow> string \<Rightarrow> string option" where
  "xml_text True [] = None"
| "xml_text True (c # cs) =
     (if c = CHR '']'' \<and> prefix '']>'' cs then xml_text False (drop 2 cs)
      else map_option ((#) c) (xml_text True cs))"
| "xml_text False [] = Some []"
| "xml_text False (c # cs) =
     (if c = CHR ''&'' then
        (if prefix ''amp;'' cs then map_option ((#) (CHR ''&'')) (xml_text False (drop 4 cs))
         else if prefix ''lt;'' cs then map_option ((#) (CHR ''<'')) (xml_text False (drop 3 cs))
         else if prefix ''gt;'' cs then map_option ((#) (CHR ''>'')) (xml_text False (drop 3 cs))
         else if prefix ''quot;'' cs then map_option ((#) (CHR 0x22)) (xml_text False (drop 5 cs))
         else if prefix ''apos;'' cs then map_option ((#) (CHR 0x27)) (xml_text False (drop 5 cs))
         else if prefix ''#x27;'' cs then map_option ((#) (CHR 0x27)) (xml_text False (drop 5 cs))
         else if prefix ''#39;'' cs then map_option ((#) (CHR 0x27)) (xml_text False (drop 4 cs))
         else None)
      else if c = CHR ''<'' then
        (if prefix ''![CDATA['' cs then xml_text True (drop 8 cs) else None)
      else if c = CHR '']'' \<and> prefix '']>'' cs then None
      else map_option ((#) c) (xml_text False cs))"

text \<open>
  The content of the line \<open>line\<close> between its start tag and its end tag, and the text a
  parser reads there.
\<close>

definition element_content :: "string \<Rightarrow> string \<Rightarrow> string \<Rightarrow> string option" where
  "element_content start_tag end_tag line =
     (if prefix start_tag line \<and> suffix end_tag (drop (length start_tag) line)
      then Some (take (length line - length start_tag - length end_tag)
                   (drop (length start_tag) line))
      else None)"

definition read_field :: "string \<Rightarrow> string \<Rightarrow> string \<Rightarrow> string option" where
  "read_field start_tag end_tag line =
     (case element_content start_tag end_tag line of
        None \<Rightarrow> None
      | Some content \<Rightarrow> xml_text False content)"

subsection \<open>Sample inputs\<close>

text \<open>
  A library for the examples: the dates \<open>T-1\<close>, \<open>T-2\<close> and \<open>T-3\<close> are one, two and three
  units before the instant 0, no other date parses, one address answers with a
  document of two items, one with a document without items, one with a document that
  is not XML, and any other address fails.
\<close>

definition sample_root :: xml where
  "sample_root =
     Element ''rss'' [] [Element ''channel'' []
       [Element ''title'' ''Packers'' [],
        Element ''item'' []
          [Element ''title'' '' Win '' [], Element ''link'' ''https://p/1'' [],
           Element ''pubDate'' ''T-2'' []],
        Element ''item'' [] [Element ''title'' ''Loss'' []]]]"

definition sample_lib :: pylib where
  "sample_lib =
     \<lparr>fetch_text =
        (\<lambda>url. if url = ''https://ok'' then Some ''two''
               else if url = ''https://empty'' then Some ''none''
               else if url = ''https://broken'' then Some ''<rss''
               else None),
      ET_fromstring =
        (\<lambda>doc. if doc = ''two'' then Some sample_root
               else if doc = ''none'' then Some (Element ''rss'' [] [Element ''channel'' [] []])
               else None),
      fromisoformat = (\<lambda>s. if s = ''T-1'' then Some (- 1) else None),
      parsedate_to_datetime =
        (\<lambda>s. if s = ''T-1'' then Some (- 1) else if s = ''T-2'' then Some (- 2)
              else if s = ''T-3'' then Some (- 3) else None),
      format_datetime = (\<lambda>t. ''T'' @ py_str_int t),
      hash_str = (\<lambda>s. int (length s))\<rparr>"

definition sample_item :: "string \<Rightarrow> string \<Rightarrow> FeedItem" where
  "sample_item g p =
     \<lparr>title = ''t'', link = ''l'', description = ''d'', pubDate = p, guid = g, kind = News\<rparr>"



text \<open>Links of the kinds a scoreboard event carries, and an event that holds only links.\<close>

definition link_boxscore :: event_link where
  "link_boxscore = \<lparr>rel = Some [''boxscore'', ''desktop''], href = Some ''https://e/box''\<rparr>"

definition link_summary :: event_link where
  "link_summary = \<lparr>rel = Some [''summary''], href = Some ''https://e/sum''\<rparr>"

definition link_tickets :: event_link where
  "link_tickets = \<lparr>rel = Some [''tickets''], href = Some ''https://e/tix''\<rparr>"

definition link_bare :: event_link where
  "link_bare = \<lparr>rel = None, href = None\<rparr>"

definition links_event :: "event_link list \<Rightarrow> string option \<Rightarrow> string option \<Rightarrow> event" where
  "links_event ls s w =
     \<lparr>competitions = None, links = Some ls, shortLink = s, web = w, event_id = None,
      event_date = None\<rparr>"

text \<open>A day of the calendar for the examples: 4 November 2026.\<close>

definition sample_today :: date where
  "sample_today = Abs_date 739924"

subsection \<open>Properties of the window of dates\<close>

lemma toordinal_range: "MINORDINAL \<le> toordinal d" "toordinal d \<le> MAXORDINAL"
  using toordinal [of d] by auto

lemma toordinal_Abs: "in_calendar c k \<Longrightarrow> toordinal (Abs_date (toordinal c + k)) = toordinal c + k"
  by (simp add: in_calendar_def Abs_date_inverse)

lemma shift_date_in:
  assumes "in_calendar c k"
  shows "shift_date c k = Inr (Abs_date (toordinal c + k))"
proof -
  have "\<bar>k\<bar> \<le> 999999999"
    using assms toordinal_range [of c]
    unfolding in_calendar_def MINORDINAL_def MAXORDINAL_def by linarith
  then show ?thesis
    using assms by (simp add: in_calendar_def shift_date_def timedelta_days_def date_add_def)
qed

lemma shift_date_out: "\<not> in_calendar c k \<Longrightarrow> shift_date c k = Inl OverflowError"
  by (auto simp: in_calendar_def shift_date_def timedelta_days_def date_add_def Let_def)

lemma yield_dates_in:
  "\<forall>k \<in> set ks. in_calendar c k \<Longrightarrow>
     yield_dates c ks = (map (\<lambda>k. Abs_date (toordinal c + k)) ks, None)"
  by (induction ks) (simp_all add: shift_date_in)

lemma yield_dates_out:
  "\<exists>k \<in> set ks. \<not> in_calendar c k \<Longrightarrow>
     snd (yield_dates c ks) = Some OverflowError \<and> length (fst (yield_dates c ks)) < length ks"
proof (induction ks)
  case Nil
  then show ?case by simp
next
  case (Cons k ks)
  show ?case
  proof (cases "in_calendar c k")
    case True
    with Cons.prems have "\<exists>k \<in> set ks. \<not> in_calendar c k" by auto
    with Cons.IH show ?thesis
      by (cases "yield_dates c ks") (simp add: shift_date_in [OF True])
  next
    case False
    then show ?thesis by (simp add: shift_date_out)
  qed
qed

lemma in_calendar_between:
  "in_calendar c a \<Longrightarrow> in_calendar c b \<Longrightarrow> a \<le> k \<Longrightarrow> k \<le> b \<Longrightarrow> in_calendar c k"
  by (simp add: in_calendar_def)

lemma in_calendar_0: "in_calendar c 0"
  using toordinal_range [of c] by (simp add: in_calendar_def)

lemma date_range_offsets:
  assumes "in_calendar center ((- max days 0) div 2)" "in_calendar center (max days 0 div 2)"
  shows "date_range center days =
     (map (\<lambda>offset. Abs_date (toordinal center + offset))
        [(- max days 0) div 2 .. max days 0 div 2], None)"
proof -
  have "in_calendar center k" if "k \<in> set [(- max days 0) div 2 .. max days 0 div 2]" for k
    using that by (intro in_calendar_between [OF assms]) simp_all
  then have "\<forall>k \<in> set [(- max days 0) div 2 .. max days 0 div 2]. in_calendar center k"
    by blast
  then show ?thesis
    by (simp add: date_range_def py_range_def Let_def yield_dates_in)
qed

lemma date_range_overflow:
  assumes "\<not> (in_calendar center ((- max days 0) div 2) \<and> in_calendar center (max days 0 div 2))"
  shows "snd (date_range center days) = Some OverflowError
    \<and> length (fst (date_range center days)) < nat (max days 0 + 1)"
proof -
  have a: "(- max days 0) div 2 \<le> 0" "0 \<le> max days 0 div 2" by presburger+
  then have "(- max days 0) div 2 \<in> set [(- max days 0) div 2 .. max days 0 div 2]"
    "max days 0 div 2 \<in> set [(- max days 0) div 2 .. max days 0 div 2]" by auto
  with assms have "\<exists>k \<in> set [(- max days 0) div 2 .. max days 0 div 2]. \<not> in_calendar center k"
    by blast
  from yield_dates_out [OF this]
  have "snd (date_range center days) = Some OverflowError
    \<and> length (fst (date_range center days)) < length [(- max days 0) div 2 .. max days 0 div 2]"
    by (simp add: date_range_def py_range_def Let_def)
  moreover have "max days 0 div 2 - (- max days 0) div 2 + 1 = max days 0 + 1"
    by presburger
  ultimately show ?thesis by simp
qed

lemma filter_upto_below:
  assumes "a \<le> 0" "0 \<le> b"
  shows "filter (\<lambda>k. k < 0) [a .. b] = [a .. - 1]"
proof -
  have "[a .. b] = [a .. 0 - 1] @ [0 .. b]"
    using assms by (intro upto_split1) auto
  moreover have "filter (\<lambda>k. k < 0) [a .. - 1] = [a .. - 1]"
    by (rule filter_True) auto
  moreover have "filter (\<lambda>k. k < 0) [0 .. b] = []"
    by (rule filter_False) auto
  ultimately show ?thesis by simp
qed

lemma filter_upto_above:
  assumes "a \<le> 0" "0 \<le> b"
  shows "filter (\<lambda>k. 0 < k) [a .. b] = [1 .. b]"
proof -
  have "[a .. b] = [a .. 0 - 1] @ [0 .. b]"
    using assms by (intro upto_split1) auto
  moreover have "[0 .. b] = 0 # [1 .. b]"
    using assms by (simp add: upto_rec1)
  moreover have "filter (\<lambda>k. 0 < k) [a .. - 1] = []"
    by (rule filter_False) auto
  moreover have "filter (\<lambda>k. 0 < k) [1 .. b] = [1 .. b]"
    by (rule filter_True) auto
  ultimately show ?thesis by simp
qed

lemma neg_div2: "(- d) div 2 = - (d div 2) - (if odd d then 1 else 0)" for d :: int
  by (cases "even d") (auto elim!: evenE oddE)

lemma span_ends: "(- max days 0) div 2 \<le> 0" "0 \<le> max days 0 div 2" for days :: int
  by presburger+

lemma toordinal_date_range:
  assumes "in_calendar center ((- max days 0) div 2)" "in_calendar center (max days 0 div 2)"
  shows "map toordinal (fst (date_range center days)) =
     map (\<lambda>offset. toordinal center + offset) [(- max days 0) div 2 .. max days 0 div 2]"
proof -
  have "toordinal (Abs_date (toordinal center + k)) = toordinal center + k"
    if "k \<in> set [(- max days 0) div 2 .. max days 0 div 2]" for k
    using that by (intro toordinal_Abs in_calendar_between [OF assms]) simp_all
  then show ?thesis
    by (simp add: date_range_offsets [OF assms])
qed

lemma dates_before_date_range:
  assumes "in_calendar center ((- max days 0) div 2)" "in_calendar center (max days 0 div 2)"
  shows "dates_before center (fst (date_range center days)) =
     map (\<lambda>offset. Abs_date (toordinal center + offset)) [(- max days 0) div 2 .. - 1]"
proof -
  have "(toordinal (Abs_date (toordinal center + k)) < toordinal center) = (k < 0)"
    if "k \<in> set [(- max days 0) div 2 .. max days 0 div 2]" for k
  proof -
    have "toordinal (Abs_date (toordinal center + k)) = toordinal center + k"
      using that by (intro toordinal_Abs in_calendar_between [OF assms]) simp_all
    then show ?thesis by simp
  qed
  then have "filter (\<lambda>k. toordinal (Abs_date (toordinal center + k)) < toordinal center)
       [(- max days 0) div 2 .. max days 0 div 2]
     = filter (\<lambda>k. k < 0) [(- max days 0) div 2 .. max days 0 div 2]"
    by (intro filter_cong refl)
  then show ?thesis
    by (simp add: dates_before_def date_range_offsets [OF assms] filter_map o_def
        filter_upto_below [OF span_ends])
qed

lemma dates_after_date_range:
  assumes "in_calendar center ((- max days 0) div 2)" "in_calendar center (max days 0 div 2)"
  shows "dates_after center (fst (date_range center days)) =
     map (\<lambda>offset. Abs_date (toordinal center + offset)) [1 .. max days 0 div 2]"
proof -
  have "(toordinal center < toordinal (Abs_date (toordinal center + k))) = (0 < k)"
    if "k \<in> set [(- max days 0) div 2 .. max days 0 div 2]" for k
  proof -
    have "toordinal (Abs_date (toordinal center + k)) = toordinal center + k"
      using that by (intro toordinal_Abs in_calendar_between [OF assms]) simp_all
    then show ?thesis by simp
  qed
  then have "filter (\<lambda>k. toordinal center < toordinal (Abs_date (toordinal center + k)))
       [(- max days 0) div 2 .. max days 0 div 2]
     = filter (\<lambda>k. 0 < k) [(- max days 0) div 2 .. max days 0 div 2]"
    by (intro filter_cong refl)
  then show ?thesis
    by (simp add: dates_after_def date_range_offsets [OF assms] filter_map o_def
        filter_upto_above [OF span_ends])
qed

lemma length_dates_before:
  assumes "in_calendar center ((- max days 0) div 2)" "in_calendar center (max days 0 div 2)"
  shows "length (dates_before center (fst (date_range center days)))
         = nat (max days 0 div 2) + (if odd (max days 0) then 1 else 0)"
proof -
  have "0 \<le> max days 0 div 2" by (rule span_ends)
  then have "nat (- ((- max days 0) div 2))
      = nat (max days 0 div 2) + (if odd (max days 0) then 1 else 0)"
    by (simp add: neg_div2 nat_add_distrib)
  then show ?thesis
    by (simp add: dates_before_date_range [OF assms])
qed

lemma length_dates_after:
  assumes "in_calendar center ((- max days 0) div 2)" "in_calendar center (max days 0 div 2)"
  shows "length (dates_after center (fst (date_range center days))) = nat (max days 0 div 2)"
  by (simp add: dates_after_date_range [OF assms])

lemma length_date_range:
  assumes "in_calendar center ((- max days 0) div 2)" "in_calendar center (max days 0 div 2)"
  shows "length (fst (date_range center days)) = nat (max days 0 + 1)"
proof -
  have "max days 0 div 2 - (- max days 0) div 2 + 1 = max days 0 + 1"
    by presburger
  then show ?thesis
    by (simp add: date_range_offsets [OF assms])
qed

lemma center_in_date_range:
  assumes "in_calendar center ((- max days 0) div 2)" "in_calendar center (max days 0 div 2)"
  shows "center \<in> set (fst (date_range center days))"
proof -
  have "0 \<in> set [(- max days 0) div 2 .. max days 0 div 2]"
    using span_ends [of days] by simp
  then have "Abs_date (toordinal center + 0) \<in> set (fst (date_range center days))"
    unfolding date_range_offsets [OF assms] fst_conv set_map by (rule imageI)
  then show ?thesis by (simp add: toordinal_inverse)
qed

lemma toordinal_sample_today: "toordinal sample_today = 739924"
  by (simp add: sample_today_def Abs_date_inverse MINORDINAL_def MAXORDINAL_def)

lemma toordinal_date_min: "toordinal date_min = 1"
  by (simp add: date_min_def Abs_date_inverse MINORDINAL_def MAXORDINAL_def)

lemma in_calendar_sample_today: "\<bar>k\<bar> \<le> 1000 \<Longrightarrow> in_calendar sample_today k"
  unfolding in_calendar_def toordinal_sample_today MINORDINAL_def MAXORDINAL_def by linarith

text \<open>
  C1, as the code has it. With \<open>span = max days 0\<close> and a window whose first and last
  day are days of the calendar, the generator runs to its end and its offsets go from
  \<open>(- span) div 2\<close> to \<open>span div 2\<close>, both rounded down. It is an odd \<open>span\<close> that gives the
  window one more date before the reference date than after it; an even \<open>span\<close>, and so
  every negative \<open>days\<close>, gives as many dates before as after.
\<close>

theorem date_range_parity:
  assumes "in_calendar center ((- max days 0) div 2)" "in_calendar center (max days 0 div 2)"
  shows "snd (date_range center days) = None
   \<and> map toordinal (fst (date_range center days))
       = map (\<lambda>offset. toordinal center + offset) [(- max days 0) div 2 .. max days 0 div 2]
   \<and> length (dates_before center (fst (date_range center days)))
       = length (dates_after center (fst (date_range center days)))
         + (if odd (max days 0) then 1 else 0)"
proof -
  have "length (dates_before center (fst (date_range center days)))
       = length (dates_after center (fst (date_range center days)))
         + (if odd (max days 0) then 1 else 0)"
    by (simp only: length_dates_before [OF assms] length_dates_after [OF assms])
  moreover have "snd (date_range center days) = None"
    by (simp add: date_range_offsets [OF assms])
  ultimately show ?thesis
    using toordinal_date_range [OF assms] by blast
qed

theorem date_range_parity_witness:
  "map toordinal (fst (date_range sample_today 5))
     = [739921, 739922, 739923, 739924, 739925, 739926]
   \<and> length (dates_before sample_today (fst (date_range sample_today 5)))
     = length (dates_after sample_today (fst (date_range sample_today 5))) + 1
   \<and> map toordinal (fst (date_range sample_today 6))
     = [739921, 739922, 739923, 739924, 739925, 739926, 739927]
   \<and> length (dates_before sample_today (fst (date_range sample_today 6)))
     = length (dates_after sample_today (fst (date_range sample_today 6)))
   \<and> map toordinal (fst (date_range sample_today (- 3))) = [739924]
   \<and> length (dates_before sample_today (fst (date_range sample_today (- 3))))
     = length (dates_after sample_today (fst (date_range sample_today (- 3))))"
proof -
  have 5: "in_calendar sample_today ((- max 5 0) div 2)" "in_calendar sample_today (max 5 0 div 2)"
    by (simp_all add: in_calendar_sample_today)
  have 6: "in_calendar sample_today ((- max 6 0) div 2)" "in_calendar sample_today (max 6 0 div 2)"
    by (simp_all add: in_calendar_sample_today)
  have 3: "in_calendar sample_today ((- max (- 3) 0) div 2)"
    "in_calendar sample_today (max (- 3) 0 div 2)"
    by (simp_all add: in_calendar_sample_today)
  show ?thesis
    using date_range_parity [OF 5] date_range_parity [OF 6] date_range_parity [OF 3]
    by (simp add: toordinal_sample_today upto_rec1)
qed

text \<open>
  C1 as the specification words it fails: the even window size 6 around 4 November 2026
  has three dates before the reference date and three dates after it.
\<close>

theorem date_range_even_counterexample:
  "even (6 :: int)
   \<and> snd (date_range sample_today 6) = None
   \<and> map toordinal (dates_before sample_today (fst (date_range sample_today 6)))
     = [739921, 739922, 739923]
   \<and> map toordinal (dates_after sample_today (fst (date_range sample_today 6)))
     = [739925, 739926, 739927]"
proof -
  have 6: "in_calendar sample_today ((- max 6 0) div 2)" "in_calendar sample_today (max 6 0 div 2)"
    by (simp_all add: in_calendar_sample_today)
  have a: "toordinal (Abs_date k) = k" if "1 \<le> k" "k \<le> 3652059" for k
    using that by (simp add: Abs_date_inverse MINORDINAL_def MAXORDINAL_def)
  have "map toordinal (dates_before sample_today (fst (date_range sample_today 6)))
     = [739921, 739922, 739923]"
    unfolding dates_before_date_range [OF 6]
    by (simp add: toordinal_sample_today upto_rec1 a)
  moreover have "map toordinal (dates_after sample_today (fst (date_range sample_today 6)))
     = [739925, 739926, 739927]"
    unfolding dates_after_date_range [OF 6]
    by (simp add: toordinal_sample_today upto_rec1 a)
  moreover have "snd (date_range sample_today 6) = None"
    by (simp add: date_range_offsets [OF 6])
  ultimately show ?thesis by simp
qed

text \<open>
  C2, as the code has it. For a window size \<open>d \<ge> 0\<close> whose first and last day are days
  of the calendar, \<open>date_range\<close> yields exactly \<open>d + 1\<close> dates, the reference date plus
  each offset from \<open>(- d) div 2\<close> to \<open>d div 2\<close>; the window holds the reference date, and
  the dates before it are as many as the dates after it, or one more. When the first
  or the last day is outside the calendar, the generator raises \<^verbatim>\<open>OverflowError\<close>
  after fewer than \<open>d + 1\<close> dates.
\<close>

theorem date_range_window:
  assumes "0 \<le> d"
  shows "(in_calendar reference ((- d) div 2) \<and> in_calendar reference (d div 2) \<longrightarrow>
      snd (date_range reference d) = None
    \<and> length (fst (date_range reference d)) = nat (d + 1)
    \<and> map toordinal (fst (date_range reference d))
        = map (\<lambda>offset. toordinal reference + offset) [(- d) div 2 .. d div 2]
    \<and> reference \<in> set (fst (date_range reference d))
    \<and> length (dates_after reference (fst (date_range reference d)))
         \<le> length (dates_before reference (fst (date_range reference d)))
    \<and> length (dates_before reference (fst (date_range reference d)))
         \<le> length (dates_after reference (fst (date_range reference d))) + 1)
   \<and> (\<not> (in_calendar reference ((- d) div 2) \<and> in_calendar reference (d div 2)) \<longrightarrow>
      snd (date_range reference d) = Some OverflowError
    \<and> length (fst (date_range reference d)) < nat (d + 1))"
proof -
  have m: "max d 0 = d" using assms by simp
  have out: "snd (date_range reference d) = Some OverflowError
    \<and> length (fst (date_range reference d)) < nat (d + 1)"
    if "\<not> (in_calendar reference ((- d) div 2) \<and> in_calendar reference (d div 2))"
    using date_range_overflow [of reference d] that by (simp add: m)
  have inside: "snd (date_range reference d) = None
    \<and> length (fst (date_range reference d)) = nat (d + 1)
    \<and> map toordinal (fst (date_range reference d))
        = map (\<lambda>offset. toordinal reference + offset) [(- d) div 2 .. d div 2]
    \<and> reference \<in> set (fst (date_range reference d))
    \<and> length (dates_after reference (fst (date_range reference d)))
         \<le> length (dates_before reference (fst (date_range reference d)))
    \<and> length (dates_before reference (fst (date_range reference d)))
         \<le> length (dates_after reference (fst (date_range reference d))) + 1"
    if i: "in_calendar reference ((- d) div 2)" "in_calendar reference (d div 2)"
  proof -
    have c: "in_calendar reference ((- max d 0) div 2)" "in_calendar reference (max d 0 div 2)"
      using i by (simp_all add: m)
    have "snd (date_range reference d) = None"
      by (simp add: date_range_offsets [OF c])
    moreover have "length (fst (date_range reference d)) = nat (d + 1)"
      using length_date_range [OF c] by (simp add: m)
    moreover have "map toordinal (fst (date_range reference d))
        = map (\<lambda>offset. toordinal reference + offset) [(- d) div 2 .. d div 2]"
      using toordinal_date_range [OF c] by (simp add: m)
    moreover note center_in_date_range [OF c]
    moreover have "length (dates_after reference (fst (date_range reference d)))
         \<le> length (dates_before reference (fst (date_range reference d)))"
      by (simp add: length_dates_before [OF c] length_dates_after [OF c])
    moreover have "length (dates_before reference (fst (date_range reference d)))
         \<le> length (dates_after reference (fst (date_range reference d))) + 1"
      by (simp add: length_dates_before [OF c] length_dates_after [OF c])
    ultimately show ?thesis by blast
  qed
  show ?thesis using inside out by blast
qed

theorem date_range_window_witness:
  "snd (date_range sample_today 3) = None
   \<and> length (fst (date_range sample_today 3)) = 4
   \<and> map toordinal (fst (date_range sample_today 3)) = [739922, 739923, 739924, 739925]
   \<and> snd (date_range date_min 2) = Some OverflowError
   \<and> length (fst (date_range date_min 2)) < 3"
proof -
  have i: "in_calendar sample_today ((- 3) div 2) \<and> in_calendar sample_today (3 div 2)"
    by (simp add: in_calendar_sample_today)
  have o: "\<not> (in_calendar date_min ((- 2) div 2) \<and> in_calendar date_min (2 div 2))"
    by (simp add: in_calendar_def toordinal_date_min MINORDINAL_def)
  show ?thesis
    using date_range_window [of 3 sample_today] date_range_window [of 2 date_min] i o
    by (simp add: toordinal_sample_today upto_rec1)
qed

text \<open>
  C2 as the specification words it, for every reference date, fails at the first day of
  the calendar: with \<open>d = 2\<close> the first offset is \<open>- 1\<close>, and the generator raises before
  it yields a date.
\<close>

theorem date_range_calendar_counterexample:
  "date_range date_min 2 = ([], Some OverflowError)"
  by (simp add: date_range_def py_range_def upto_rec1 shift_date_def timedelta_days_def
      date_add_def toordinal_date_min MINORDINAL_def)

text \<open>
  C10: a negative window size is clamped to zero, so \<open>date_range\<close> yields the reference
  date and nothing else, and ends without an exception.
\<close>

theorem date_range_negative: "d < 0 \<Longrightarrow> date_range reference d = ([reference], None)"
proof -
  assume "d < 0"
  then have m: "max d 0 = 0" by simp
  have "shift_date reference 0 = Inr (Abs_date (toordinal reference + 0))"
    by (rule shift_date_in) (rule in_calendar_0)
  then have "shift_date reference 0 = Inr reference"
    by (simp add: toordinal_inverse)
  then show ?thesis
    by (simp add: date_range_def py_range_def m)
qed

theorem date_range_negative_witness: "date_range sample_today (- 4) = ([sample_today], None)"
  using date_range_negative [of "- 4" sample_today] by simp

subsection \<open>Properties of the team filter\<close>

lemma py_in_iff: "py_in k n \<longleftrightarrow> (\<exists>pre post. n = pre @ k @ post)"
proof (induction n)
  case Nil
  then show ?case by auto
next
  case (Cons c cs)
  show ?case
  proof
    assume "py_in k (c # cs)"
    then consider "prefix k (c # cs)" | "py_in k cs" by auto
    then show "\<exists>pre post. c # cs = pre @ k @ post"
    proof cases
      case 1
      then obtain post where "c # cs = k @ post" by (auto simp: prefix_def)
      then have "c # cs = [] @ k @ post" by simp
      then show ?thesis by blast
    next
      case 2
      with Cons.IH obtain pre post where "cs = pre @ k @ post" by blast
      then have "c # cs = (c # pre) @ k @ post" by simp
      then show ?thesis by blast
    qed
  next
    assume "\<exists>pre post. c # cs = pre @ k @ post"
    then obtain pre post where e: "c # cs = pre @ k @ post" by blast
    show "py_in k (c # cs)"
    proof (cases pre)
      case Nil
      with e have "prefix k (c # cs)" by (simp add: prefix_def)
      then show ?thesis by simp
    next
      case (Cons p ps)
      with e have "cs = ps @ k @ post" by simp
      with Cons.IH have "py_in k cs" by blast
      then show ?thesis by simp
    qed
  qed
qed

lemma lower_char_idem: "lower_char (lower_char c) = lower_char c"
  by (simp add: lower_char_def Let_def)

lemma py_lower_idem: "py_lower (py_lower s) = py_lower s"
  by (simp add: py_lower_def lower_char_idem)

text \<open>
  C6: \<open>matches_team\<close> holds exactly when the lowercased input contains the lowercased
  form of some entry of the allow-list as a substring; the case of the input does not
  matter. It holds of \<open>green bay packers\<close>, in either case, and not of \<open>Detroit Lions\<close>.
\<close>

theorem matches_team_substring:
  "(matches_team name \<longleftrightarrow>
      (\<exists>key \<in> set TEAM_MATCHERS. \<exists>pre post. py_lower name = pre @ py_lower key @ post))
   \<and> matches_team (py_lower name) = matches_team name
   \<and> matches_team ''green bay packers''
   \<and> matches_team ''GREEN BAY PACKERS''
   \<and> \<not> matches_team ''Detroit Lions''"
proof -
  have d: "matches_team n = list_ex (\<lambda>key. py_in (py_lower key) (py_lower n)) TEAM_MATCHERS" for n
    by (simp add: matches_team_def or_str_def)
  have "matches_team name \<longleftrightarrow>
      (\<exists>key \<in> set TEAM_MATCHERS. \<exists>pre post. py_lower name = pre @ py_lower key @ post)"
    by (simp add: d list_ex_iff py_in_iff)
  moreover have "matches_team (py_lower name) = matches_team name"
    by (simp add: d py_lower_idem)
  moreover have "matches_team ''green bay packers''"
    by code_simp
  moreover have "matches_team ''GREEN BAY PACKERS''"
    by code_simp
  moreover have "\<not> matches_team ''Detroit Lions''"
    by code_simp
  ultimately show ?thesis by blast
qed

subsection \<open>Properties of the event normalizer\<close>



subsection \<open>Properties of the merger and sorter\<close>

lemma length_sort_keys: "length (sort_keys L clock items) = length items"
  by (simp add: sort_keys_def)

lemma map_snd_timed_items: "map snd (timed_items L clock items) = items"
  by (simp add: timed_items_def length_sort_keys)

lemma sort_timed_eq: "sort_timed L clock items = rev (sort_key fst (rev (timed_items L clock items)))"
  by (simp add: sort_timed_def py_sort_reverse_def timed_items_def)

lemma mset_sort_timed: "mset (sort_timed L clock items) = mset (timed_items L clock items)"
  by (simp add: sort_timed_eq)

lemma sort_timed_descending: "sorted_wrt (\<ge>) (map fst (sort_timed L clock items))"
proof -
  have "sorted (map fst (sort_key fst (rev (timed_items L clock items))))"
    by (rule sorted_sort_key)
  then show ?thesis
    by (simp add: sort_timed_eq rev_map [symmetric] sorted_wrt_rev)
qed

lemma sort_timed_stable:
  "filter (\<lambda>p. fst p = t) (sort_timed L clock items)
   = filter (\<lambda>p. fst p = t) (timed_items L clock items)"
  by (simp add: sort_timed_eq rev_filter [symmetric] sort_key_stable)

lemma length_sort_items: "length (sort_items L clock items) = length items"
proof -
  have "length (sort_timed L clock items) = length (timed_items L clock items)"
    by (simp add: sort_timed_eq)
  then show ?thesis
    by (simp add: sort_items_def timed_items_def length_sort_keys)
qed

text \<open>
  C5: the merger orders the items by publish time, most recent first, and the sort is
  stable. \<open>sort_timed\<close> lists the sorted items with their publish times, and
  \<open>timed_items\<close> lists them as they were inserted: the sorted list holds the same
  items, its times never increase, and the items of any one time stand in the order of
  their insertion.
\<close>

theorem sort_items_stable:
  "sort_items L clock items = map snd (sort_timed L clock items)
   \<and> map snd (timed_items L clock items) = items
   \<and> mset (sort_timed L clock items) = mset (timed_items L clock items)
   \<and> sorted_wrt (\<ge>) (map fst (sort_timed L clock items))
   \<and> (\<forall>t. filter (\<lambda>p. fst p = t) (sort_timed L clock items)
           = filter (\<lambda>p. fst p = t) (timed_items L clock items))"
  using map_snd_timed_items [of L clock items] mset_sort_timed [of L clock items]
    sort_timed_descending [of L clock items] sort_timed_stable [of _ L clock items]
  by (simp add: sort_items_def)

theorem sort_items_stable_witness:
  "sort_items sample_lib (\<lambda>i. 0)
     [sample_item ''a'' ''T-1'', sample_item ''b'' ''T-3'', sample_item ''c'' ''T-2'',
      sample_item ''d'' ''T-3'']
   = [sample_item ''a'' ''T-1'', sample_item ''c'' ''T-2'', sample_item ''b'' ''T-3'',
      sample_item ''d'' ''T-3'']
   \<and> sorted_wrt (\<ge>) (map fst (sort_timed sample_lib (\<lambda>i. 0)
     [sample_item ''a'' ''T-1'', sample_item ''b'' ''T-3'', sample_item ''c'' ''T-2'',
      sample_item ''d'' ''T-3'']))"
proof -
  have "sort_timed sample_lib (\<lambda>i. 0)
     [sample_item ''a'' ''T-1'', sample_item ''b'' ''T-3'', sample_item ''c'' ''T-2'',
      sample_item ''d'' ''T-3'']
   = [(- 1, sample_item ''a'' ''T-1''), (- 2, sample_item ''c'' ''T-2''),
      (- 3, sample_item ''b'' ''T-3''), (- 3, sample_item ''d'' ''T-3'')]"
    by code_simp
  with sort_items_stable [of sample_lib "\<lambda>i. 0"
     "[sample_item ''a'' ''T-1'', sample_item ''b'' ''T-3'', sample_item ''c'' ''T-2'',
      sample_item ''d'' ''T-3'']"]
  show ?thesis by simp
qed

subsection \<open>Properties of the cap\<close>

lemma cap_items_take: "0 < m \<Longrightarrow> cap_items m xs = take (nat m) xs"
  by (simp add: cap_items_def)

lemma sorted_wrt_take_drop:
  assumes "sorted_wrt P xs" "p \<in> set (take n xs)" "q \<in> set (drop n xs)"
  shows "P p q"
proof -
  have "sorted_wrt P (take n xs @ drop n xs)" using assms(1) by simp
  then show ?thesis using assms(2,3) unfolding sorted_wrt_append by blast
qed

text \<open>
  C8: with a positive maximum the sorted list is cut to its first \<open>max_items\<close> items,
  which are the most recent ones: the output has \<open>max_items\<close> items, or all of them when
  there are fewer, and no item that is left out is more recent than an item that is
  kept. A maximum of zero or less keeps the whole list.
\<close>

theorem sort_and_cap_truncates:
  "(0 < max_items \<longrightarrow>
      cap_items max_items xs = take (nat max_items) xs
    \<and> sort_and_cap L clock max_items items
        = map snd (take (nat max_items) (sort_timed L clock items))
    \<and> length (sort_and_cap L clock max_items items) = min (nat max_items) (length items)
    \<and> (\<forall>p \<in> set (take (nat max_items) (sort_timed L clock items)).
         \<forall>q \<in> set (drop (nat max_items) (sort_timed L clock items)). fst q \<le> fst p))
   \<and> (max_items \<le> 0 \<longrightarrow>
      cap_items max_items xs = xs
    \<and> sort_and_cap L clock max_items items = sort_items L clock items)"
proof -
  have a: "fst q \<le> fst p"
    if "p \<in> set (take n (sort_timed L clock items))" "q \<in> set (drop n (sort_timed L clock items))"
    for p q n
  proof -
    have "fst p \<in> set (take n (map fst (sort_timed L clock items)))"
      using that(1) by (simp add: take_map)
    moreover have "fst q \<in> set (drop n (map fst (sort_timed L clock items)))"
      using that(2) by (simp add: drop_map)
    ultimately show ?thesis
      using sorted_wrt_take_drop [OF sort_timed_descending] by blast
  qed
  have b: "length (sort_and_cap L clock max_items items) = min (nat max_items) (length items)"
    if "0 < max_items"
    using that by (simp add: sort_and_cap_def cap_items_def length_sort_items min_def)
  have c: "sort_and_cap L clock max_items items
        = map snd (take (nat max_items) (sort_timed L clock items))" if "0 < max_items"
    using that by (simp add: sort_and_cap_def cap_items_def sort_items_def take_map)
  have d: "sort_and_cap L clock max_items items = sort_items L clock items" if "max_items \<le> 0"
    using that by (simp add: sort_and_cap_def cap_items_def)
  have e: "cap_items max_items xs = take (nat max_items) xs" if "0 < max_items"
    using that by (simp add: cap_items_def)
  have f: "cap_items max_items xs = xs" if "max_items \<le> 0"
    using that by (simp add: cap_items_def)
  show ?thesis
    using a b c d e f by blast
qed

theorem sort_and_cap_truncates_witness:
  "sort_and_cap sample_lib (\<lambda>i. 0) 2
     [sample_item ''a'' ''T-2'', sample_item ''b'' ''T-3'', sample_item ''c'' ''T-1'',
      sample_item ''d'' ''T-3'', sample_item ''e'' ''T-2'']
   = [sample_item ''c'' ''T-1'', sample_item ''a'' ''T-2'']
   \<and> sort_and_cap sample_lib (\<lambda>i. 0) 0
     [sample_item ''a'' ''T-2'', sample_item ''b'' ''T-3'', sample_item ''c'' ''T-1'']
   = [sample_item ''c'' ''T-1'', sample_item ''a'' ''T-2'', sample_item ''b'' ''T-3'']"
proof -
  have s: "sort_timed sample_lib (\<lambda>i. 0)
     [sample_item ''a'' ''T-2'', sample_item ''b'' ''T-3'', sample_item ''c'' ''T-1'',
      sample_item ''d'' ''T-3'', sample_item ''e'' ''T-2'']
   = [(- 1, sample_item ''c'' ''T-1''), (- 2, sample_item ''a'' ''T-2''),
      (- 2, sample_item ''e'' ''T-2''), (- 3, sample_item ''b'' ''T-3''),
      (- 3, sample_item ''d'' ''T-3'')]"
    by code_simp
  have t: "sort_items sample_lib (\<lambda>i. 0)
     [sample_item ''a'' ''T-2'', sample_item ''b'' ''T-3'', sample_item ''c'' ''T-1'']
   = [sample_item ''c'' ''T-1'', sample_item ''a'' ''T-2'', sample_item ''b'' ''T-3'']"
    by code_simp
  have 1: "sort_and_cap sample_lib (\<lambda>i. 0) 2
     [sample_item ''a'' ''T-2'', sample_item ''b'' ''T-3'', sample_item ''c'' ''T-1'',
      sample_item ''d'' ''T-3'', sample_item ''e'' ''T-2'']
     = map snd (take (nat 2) (sort_timed sample_lib (\<lambda>i. 0)
     [sample_item ''a'' ''T-2'', sample_item ''b'' ''T-3'', sample_item ''c'' ''T-1'',
      sample_item ''d'' ''T-3'', sample_item ''e'' ''T-2'']))"
    using sort_and_cap_truncates [of 2 "[] :: nat list" sample_lib "\<lambda>i. 0"
     "[sample_item ''a'' ''T-2'', sample_item ''b'' ''T-3'', sample_item ''c'' ''T-1'',
      sample_item ''d'' ''T-3'', sample_item ''e'' ''T-2'']"]
    by simp
  have 2: "sort_and_cap sample_lib (\<lambda>i. 0) 0
     [sample_item ''a'' ''T-2'', sample_item ''b'' ''T-3'', sample_item ''c'' ''T-1'']
    = sort_items sample_lib (\<lambda>i. 0)
     [sample_item ''a'' ''T-2'', sample_item ''b'' ''T-3'', sample_item ''c'' ''T-1'']"
    using sort_and_cap_truncates [of 0 "[] :: nat list" sample_lib "\<lambda>i. 0"
     "[sample_item ''a'' ''T-2'', sample_item ''b'' ''T-3'', sample_item ''c'' ''T-1'']"]
    by simp
  show ?thesis
    unfolding 1 2 s t by simp
qed

subsection \<open>Properties of the canonical link\<close>

lemma find_first:
  "ls = pre @ l # post \<Longrightarrow> P l \<Longrightarrow> \<forall>x \<in> set pre. \<not> P x \<Longrightarrow> find P ls = Some l"
  by (induction pre arbitrary: ls) auto

lemma find_none: "\<forall>x \<in> set ls. \<not> P x \<Longrightarrow> find P ls = None"
  by (simp add: find_None_iff)

lemma rel_loop_skip:
  "\<forall>r \<in> set rs1. \<forall>l \<in> set ls. \<not> has_rel r l \<Longrightarrow> rel_loop (rs1 @ rs2) ls = rel_loop rs2 ls"
  by (induction rs1) (simp_all add: find_none)

lemma rel_loop_first:
  assumes "\<forall>r' \<in> set rs1. \<forall>x \<in> set ls. \<not> has_rel r' x"
    and "ls = pre @ l # post" and "has_rel r l" and "\<forall>x \<in> set pre. \<not> has_rel r x"
  shows "rel_loop (rs1 @ r # rs2) ls = Some (or_str (href l) [])"
proof -
  have "find (has_rel r) ls = Some l"
    using assms(2-4) by (rule find_first)
  then show ?thesis
    using rel_loop_skip [OF assms(1)] by simp
qed

lemma rel_loop_none:
  "\<forall>r \<in> set rs. \<forall>l \<in> set ls. \<not> has_rel r l \<Longrightarrow> rel_loop rs ls = None"
  using rel_loop_skip [of rs ls "[]"] by simp

lemma pick_game_link_rel:
  assumes "[''boxscore'', ''summary'', ''pbp'', ''recap''] = rs1 @ r # rs2"
    and "\<forall>r' \<in> set rs1. \<forall>x \<in> set (or_list (links ev)). \<not> has_rel r' x"
    and "or_list (links ev) = pre @ l # post" and "has_rel r l"
    and "\<forall>x \<in> set pre. \<not> has_rel r x"
  shows "pick_game_link ev = or_str (href l) []"
proof -
  have "rel_loop (rs1 @ r # rs2) (or_list (links ev)) = Some (or_str (href l) [])"
    using assms(2-5) by (rule rel_loop_first)
  then show ?thesis
    by (simp add: pick_game_link_def Let_def flip: assms(1))
qed

lemma pick_game_link_href:
  assumes "\<forall>r \<in> set [''boxscore'', ''summary'', ''pbp'', ''recap''].
             \<forall>x \<in> set (or_list (links ev)). \<not> has_rel r x"
    and "or_list (links ev) = pre @ l # post" and "has_href l"
    and "\<forall>x \<in> set pre. \<not> has_href x"
  shows "href l = Some (pick_game_link ev) \<and> pick_game_link ev \<noteq> []"
proof -
  have n: "rel_loop [''boxscore'', ''summary'', ''pbp'', ''recap''] (or_list (links ev)) = None"
    using assms(1) by (rule rel_loop_none)
  have f: "find has_href (or_list (links ev)) = Some l"
    using assms(2-4) by (rule find_first)
  have p: "pick_game_link ev = or_str (href l) []"
    using n f by (simp add: pick_game_link_def Let_def)
  show ?thesis
    using assms(3) unfolding p
    by (auto simp: has_href_def or_str_def split: option.splits if_splits)
qed

lemma pick_game_link_fallback:
  assumes "\<forall>r \<in> set [''boxscore'', ''summary'', ''pbp'', ''recap''].
             \<forall>x \<in> set (or_list (links ev)). \<not> has_rel r x"
    and "\<forall>x \<in> set (or_list (links ev)). \<not> has_href x"
  shows "pick_game_link ev =
            (if or_str (shortLink ev) [] \<noteq> [] then or_str (shortLink ev) []
             else if or_str (web ev) [] \<noteq> [] then or_str (web ev) []
             else ''https://www.espn.com/'')"
proof -
  have n: "rel_loop [''boxscore'', ''summary'', ''pbp'', ''recap''] (or_list (links ev)) = None"
    using assms(1) by (rule rel_loop_none)
  have f: "find has_href (or_list (links ev)) = None"
    using assms(2) by (rule find_none)
  show ?thesis
    using n f by (auto simp: pick_game_link_def Let_def or_str_def split: option.splits)
qed

text \<open>
  C7, as the code has it. The link is resolved in the order boxscore, summary,
  play-by-play, recap: for the first of these relations that some link of the event
  declares, the result is the address of the first link declaring it (the empty string
  when that link has no address). When no link declares any of the four, the result is
  the address of the first link that has one; when no link has an address either, it
  is the short link of the event, then its \<open>web\<close> field, then the address of ESPN.
\<close>

theorem pick_game_link_order:
  "(\<forall>rs1 r rs2 pre l post.
      [''boxscore'', ''summary'', ''pbp'', ''recap''] = rs1 @ r # rs2
      \<and> (\<forall>r' \<in> set rs1. \<forall>x \<in> set (or_list (links ev)). \<not> has_rel r' x)
      \<and> or_list (links ev) = pre @ l # post \<and> has_rel r l \<and> (\<forall>x \<in> set pre. \<not> has_rel r x)
      \<longrightarrow> pick_game_link ev = or_str (href l) [])
   \<and> (\<forall>pre l post.
      (\<forall>r \<in> set [''boxscore'', ''summary'', ''pbp'', ''recap''].
         \<forall>x \<in> set (or_list (links ev)). \<not> has_rel r x)
      \<and> or_list (links ev) = pre @ l # post \<and> has_href l \<and> (\<forall>x \<in> set pre. \<not> has_href x)
      \<longrightarrow> href l = Some (pick_game_link ev) \<and> pick_game_link ev \<noteq> [])
   \<and> ((\<forall>r \<in> set [''boxscore'', ''summary'', ''pbp'', ''recap''].
         \<forall>x \<in> set (or_list (links ev)). \<not> has_rel r x)
      \<and> (\<forall>x \<in> set (or_list (links ev)). \<not> has_href x)
      \<longrightarrow> pick_game_link ev =
            (if or_str (shortLink ev) [] \<noteq> [] then or_str (shortLink ev) []
             else if or_str (web ev) [] \<noteq> [] then or_str (web ev) []
             else ''https://www.espn.com/''))"
  using pick_game_link_rel [of _ _ _ ev] pick_game_link_href [of ev] pick_game_link_fallback [of ev]
  by blast

lemmas sample_links =
  link_boxscore_def link_summary_def link_tickets_def link_bare_def links_event_def
  has_rel_def has_href_def or_list_def or_str_def

theorem pick_game_link_order_witness:
  "pick_game_link (links_event [link_summary, link_tickets, link_boxscore] None None)
     = ''https://e/box''
   \<and> pick_game_link (links_event [link_tickets, link_summary] None None) = ''https://e/sum''
   \<and> pick_game_link (links_event [link_bare, link_tickets] (Some ''https://s'') None)
     = ''https://e/tix''
   \<and> pick_game_link (links_event [link_bare] (Some ''https://s'') (Some ''https://w''))
     = ''https://s''
   \<and> pick_game_link (links_event [link_bare] None None) = ''https://www.espn.com/''"
proof -
  have 1: "pick_game_link (links_event [link_summary, link_tickets, link_boxscore] None None)
     = or_str (href link_boxscore) []"
    by (rule pick_game_link_order [THEN conjunct1, rule_format,
          of "[]" "''boxscore''" "[''summary'', ''pbp'', ''recap'']" _
             "[link_summary, link_tickets]" link_boxscore "[]"])
       (simp add: sample_links)
  have 2: "pick_game_link (links_event [link_tickets, link_summary] None None)
     = or_str (href link_summary) []"
    by (rule pick_game_link_order [THEN conjunct1, rule_format,
          of "[''boxscore'']" "''summary''" "[''pbp'', ''recap'']" _
             "[link_tickets]" link_summary "[]"])
       (simp add: sample_links)
  have 3: "href link_tickets
     = Some (pick_game_link (links_event [link_bare, link_tickets] (Some ''https://s'') None))"
    using pick_game_link_order [THEN conjunct2, THEN conjunct1, rule_format,
          of "links_event [link_bare, link_tickets] (Some ''https://s'') None"
             "[link_bare]" link_tickets "[]"]
    by (simp add: sample_links)
  have 4: "pick_game_link (links_event [link_bare] (Some ''https://s'') (Some ''https://w''))
     = ''https://s''"
    using pick_game_link_order [THEN conjunct2, THEN conjunct2, rule_format,
          of "links_event [link_bare] (Some ''https://s'') (Some ''https://w'')"]
    by (simp add: sample_links)
  have 5: "pick_game_link (links_event [link_bare] None None) = ''https://www.espn.com/''"
    using pick_game_link_order [THEN conjunct2, THEN conjunct2, rule_format,
          of "links_event [link_bare] None None"]
    by (simp add: sample_links)
  from 1 2 3 4 5 show ?thesis
    by (simp add: link_boxscore_def link_summary_def link_tickets_def or_str_def)
qed

text \<open>
  C7 as the specification words it goes from the short link straight to the generic
  address. An event without links and without short link, but with a \<open>web\<close> field,
  gets the \<open>web\<close> field.
\<close>

theorem pick_game_link_web_counterexample:
  "pick_game_link (links_event [] None (Some ''https://example.org/game''))
     = ''https://example.org/game''
   \<and> pick_game_link (links_event [] None (Some ''https://example.org/game''))
     \<noteq> ''https://www.espn.com/''"
  by (simp add: pick_game_link_def links_event_def or_list_def or_str_def)

subsection \<open>Properties of the serializer\<close>

text \<open>
  \<open>escape\<close> works character by character, and the reader undoes it: a title, a link and
  a guid are read back as they were, whatever they hold. A description is read back as
  it was when it does not hold the sequence \<open>]]>\<close>.
\<close>

lemma py_replace1_append: "py_replace1 c r (a @ b) = py_replace1 c r a @ py_replace1 c r b"
  by (simp add: py_replace1_def)

lemma escape_append: "escape (a @ b) = escape a @ escape b"
  by (simp add: escape_def py_replace1_append)

lemma escape_Nil: "escape [] = []"
  by (simp add: escape_def py_replace1_def)

lemma escape_single: "escape [c] = escape_char c"
  by (simp add: escape_def py_replace1_def escape_char_def)

lemma escape_Cons: "escape (c # s) = escape_char c @ escape s"
  using escape_append [of "[c]" s] by (simp add: escape_single)

lemma escape_no_gt: "CHR ''>'' \<notin> set (escape s)"
  by (induction s) (auto simp: escape_Nil escape_Cons escape_char_def)

lemma prefix_close_gt: "prefix '']>'' xs \<Longrightarrow> CHR ''>'' \<in> set xs"
  by (auto simp: prefix_def)

lemma xml_text_escape: "xml_text False (escape s) = Some s"
proof (induction s)
  case Nil
  then show ?case by (simp add: escape_Nil)
next
  case (Cons c s)
  have n: "\<not> prefix '']>'' (escape s)"
    using escape_no_gt prefix_close_gt by blast
  show ?case
    using Cons.IH n by (simp add: escape_Cons escape_char_def)
qed

lemma element_content_wrap: "element_content st en (st @ body @ en) = Some body"
  by (simp add: element_content_def suffix_def)

lemma read_field_escape: "read_field st en (st @ escape s @ en) = Some s"
  by (simp add: read_field_def element_content_wrap xml_text_escape)

lemma close_cdata_here:
  "prefix '']>'' (d @ '']]>'') \<Longrightarrow> prefix '']]>'' (CHR '']'' # d)"
proof (cases d)
  case Nil
  assume "prefix '']>'' (d @ '']]>'')"
  with Nil show ?thesis by simp
next
  case (Cons x xs)
  assume p: "prefix '']>'' (d @ '']]>'')"
  show ?thesis
  proof (cases xs)
    case Nil
    with p Cons show ?thesis by simp
  next
    case (Cons y ys)
    with p \<open>d = x # xs\<close> show ?thesis by simp
  qed
qed

lemma xml_text_cdata_body:
  "\<not> py_in '']]>'' d \<Longrightarrow> xml_text True (d @ '']]>'') = Some d"
proof (induction d)
  case Nil
  then show ?case by simp
next
  case (Cons c d)
  then have a: "\<not> prefix '']]>'' (c # d)" "\<not> py_in '']]>'' d" by auto
  have "xml_text True ((c # d) @ '']]>'') = map_option ((#) c) (xml_text True (d @ '']]>''))"
  proof (cases "c = CHR '']''")
    case True
    with a(1) have "\<not> prefix '']>'' (d @ '']]>'')"
      using close_cdata_here by blast
    then show ?thesis by simp
  next
    case False
    then show ?thesis by simp
  qed
  with Cons.IH a(2) show ?case by simp
qed

lemma xml_text_cdata:
  "\<not> py_in '']]>'' d \<Longrightarrow> xml_text False (''<![CDATA['' @ d @ '']]>'') = Some d"
  by (simp add: xml_text_cdata_body)

lemma read_field_cdata:
  "\<not> py_in '']]>'' d \<Longrightarrow>
     read_field ''<description>'' ''</description>''
       (''<description><![CDATA['' @ d @ '']]></description>'') = Some d"
proof -
  assume d: "\<not> py_in '']]>'' d"
  have "element_content ''<description>'' ''</description>''
     (''<description>'' @ (''<![CDATA['' @ d @ '']]>'') @ ''</description>'')
     = Some (''<![CDATA['' @ d @ '']]>'')"
    by (rule element_content_wrap)
  then show ?thesis
    using xml_text_cdata [OF d] by (simp add: read_field_def)
qed

lemma item_fields_read_back:
  "read_field ''<title>'' ''</title>'' (item_lines it ! 1) = Some (title it)
   \<and> read_field ''<link>'' ''</link>'' (item_lines it ! 2) = Some (link it)
   \<and> read_field guid_open ''</guid>'' (item_lines it ! 3) = Some (guid it)"
proof -
  have 1: "item_lines it ! 1 = ''<title>'' @ escape (title it) @ ''</title>''"
    by (simp add: item_lines_def)
  have 2: "item_lines it ! 2 = ''<link>'' @ escape (link it) @ ''</link>''"
    by (simp add: item_lines_def)
  have 3: "item_lines it ! 3 = guid_open @ escape (guid it) @ ''</guid>''"
    by (simp add: item_lines_def)
  show ?thesis
    unfolding 1 2 3 by (intro conjI read_field_escape)
qed

text \<open>
  C3 asks that every text field of every item is read back as it was. The description
  is written between \<open><![CDATA[\<close> and \<open>]]>\<close> as it is, so a description that holds
  \<open>]]>\<close> closes the section early: for \<open>a]]>b\<close> the line is not well-formed, and for
  \<open>a]]><![CDATA[b\<close> the reader returns \<open>ab\<close>.
\<close>

theorem description_cdata_not_read_back:
  "item_lines (sample_item ''g'' ''T-1''\<lparr>description := ''a]]>b''\<rparr>) ! 5
     = ''<description><![CDATA[a]]>b]]></description>''
   \<and> rss_lines sample_lib 0 [sample_item ''g'' ''T-1''\<lparr>description := ''a]]>b''\<rparr>]
       ''t'' ''l'' ''d'' ! 12
     = ''<description><![CDATA[a]]>b]]></description>''
   \<and> read_field ''<description>'' ''</description>''
       (item_lines (sample_item ''g'' ''T-1''\<lparr>description := ''a]]>b''\<rparr>) ! 5) = None
   \<and> read_field ''<description>'' ''</description>''
       (item_lines (sample_item ''g'' ''T-1''\<lparr>description := ''a]]><![CDATA[b''\<rparr>) ! 5)
     = Some ''ab''"
  by code_simp

subsection \<open>Properties of the news ingester\<close>

lemma news_feeds_append:
  "news_feeds L clock i (xs @ ys) items
   = news_feeds L clock (i + length xs) ys (news_feeds L clock i xs items)"
  by (induction xs arbitrary: i items) auto

lemma news_feeds_prefix: "prefix items (news_feeds L clock i feeds items)"
proof (induction feeds arbitrary: i items)
  case Nil
  then show ?case by simp
next
  case (Cons f feeds)
  obtain t u where f: "f = (t, u)" by (cases f)
  have "prefix items (items @ parse_team_rss L (clock i) t u 20)" by simp
  also have "prefix \<dots> (news_feeds L clock (Suc i) feeds (items @ parse_team_rss L (clock i) t u 20))"
    by (rule Cons.IH)
  finally show ?case by (simp add: f)
qed

text \<open>
  C9: a feed whose fetch fails, whose document is not XML, or whose document has no
  \<open>item\<close> element contributes no item, and the loop over the feeds goes on: the feeds
  after it are processed from the list as the feeds before it left it, and the items
  collected before the loop are still at the front of the result.
\<close>

theorem news_feed_failure:
  assumes "fetch_text L url = None
     \<or> (\<exists>doc. fetch_text L url = Some doc
          \<and> (ET_fromstring L doc = None
             \<or> (\<exists>root. ET_fromstring L doc = Some root \<and> findall root ''item'' = [])))"
  shows "parse_team_rss L now feed_title url max_items = []
   \<and> news_feeds L clock i (before @ (feed_title, url) # rest) items
       = news_feeds L clock (Suc (i + length before)) rest (news_feeds L clock i before items)
   \<and> prefix items (news_feeds L clock i (before @ (feed_title, url) # rest) items)"
proof -
  have p: "parse_team_rss L n feed_title url m = []" for n m
    using assms by (auto simp: parse_team_rss_def)
  have "news_feeds L clock i (before @ (feed_title, url) # rest) items
       = news_feeds L clock (Suc (i + length before)) rest (news_feeds L clock i before items)"
    by (simp add: news_feeds_append p)
  with p news_feeds_prefix show ?thesis by blast
qed

theorem news_feed_failure_witness:
  "parse_team_rss sample_lib (\<lambda>k. 0) ''A'' ''https://down'' 20 = []
   \<and> parse_team_rss sample_lib (\<lambda>k. 0) ''C'' ''https://broken'' 20 = []
   \<and> parse_team_rss sample_lib (\<lambda>k. 0) ''D'' ''https://empty'' 20 = []
   \<and> news_feeds sample_lib (\<lambda>i k. 0) 0
       [(''A'', ''https://down''), (''B'', ''https://ok''), (''C'', ''https://broken''),
        (''D'', ''https://empty'')]
       [sample_item ''s'' ''T-1'']
     = [sample_item ''s'' ''T-1'',
        \<lparr>title = ''B: Win'', link = ''https://p/1'', description = [], pubDate = ''T-2'',
         guid = ''news-18'', kind = News\<rparr>,
        \<lparr>title = ''B: Loss'', link = [], description = [], pubDate = ''T0'',
         guid = ''news-5'', kind = News\<rparr>]"
proof -
  have e: "findall (Element ''rss'' [] [Element ''channel'' [] []]) ''item'' = []"
    by (simp add: findall_def)
  have 1: "parse_team_rss sample_lib (\<lambda>k. 0) ''A'' ''https://down'' 20 = []"
    using news_feed_failure [of sample_lib "''https://down''" "\<lambda>k. 0" "''A''" 20]
    by (simp add: sample_lib_def)
  have 2: "parse_team_rss sample_lib (\<lambda>k. 0) ''C'' ''https://broken'' 20 = []"
    using news_feed_failure [of sample_lib "''https://broken''" "\<lambda>k. 0" "''C''" 20]
    by (simp add: sample_lib_def)
  have 3: "parse_team_rss sample_lib (\<lambda>k. 0) ''D'' ''https://empty'' 20 = []"
    using news_feed_failure [of sample_lib "''https://empty''" "\<lambda>k. 0" "''D''" 20]
    by (simp add: sample_lib_def e)
  have 4: "news_feeds sample_lib (\<lambda>i k. 0) 0
       [(''A'', ''https://down''), (''B'', ''https://ok''), (''C'', ''https://broken''),
        (''D'', ''https://empty'')]
       [sample_item ''s'' ''T-1'']
     = [sample_item ''s'' ''T-1'',
        \<lparr>title = ''B: Win'', link = ''https://p/1'', description = [], pubDate = ''T-2'',
         guid = ''news-18'', kind = News\<rparr>,
        \<lparr>title = ''B: Loss'', link = [], description = [], pubDate = ''T0'',
         guid = ''news-5'', kind = News\<rparr>]"
    by code_simp
  from 1 2 3 4 show ?thesis by blast
qed

end
